theory Spec2Isabelle
  imports Main "HOL-Library.Sublist"
begin

section \<open>Python values and the standard-library operations the worker relies on\<close>

text \<open>
  The worker (\<^verbatim>\<open>src/worker.py\<close>) moves values that \<^verbatim>\<open>sqlite3\<close> hands out
  (\<^verbatim>\<open>None\<close>, \<^verbatim>\<open>int\<close>, \<^verbatim>\<open>str\<close>, \<^verbatim>\<open>bytes\<close>) into dictionaries and
  passes these to \<^verbatim>\<open>json.dump\<close>. A Python value is modelled by \<open>py_value\<close>.
  A \<^verbatim>\<open>str\<close> is a \<open>string\<close>, each \<open>char\<close> standing for one code point below 256.
  A \<^verbatim>\<open>dict\<close> is an association list in insertion order, which is the order
  \<^verbatim>\<open>json.dump\<close> writes. Values of SQLite's type REAL (IEEE doubles) are not modelled;
  without them (and without \<^verbatim>\<open>bool\<close> keys, which \<^verbatim>\<open>sqlite3\<close> never returns)
  Python's equality of dictionary keys is the equality of \<open>py_value\<close>.
\<close>

datatype py_value =
    PyNone
  | PyBool bool
  | PyInt int
  | PyStr string
  | PyBytes "nat list"
  | PyList "py_value list"
  | PyDict "(py_value \<times> py_value) list"

type_synonym py_dict = "(py_value \<times> py_value) list"

text \<open>The exceptions that can travel through the worker, each with its message.\<close>

datatype py_exception =
    SqliteError string
  | KeyError string
  | TypeError string
  | OSError string
  | ContainerParamError string
  | RuntimeException string

text \<open>\<^verbatim>\<open>str(e)\<close>, as the f-strings of the handlers print it: a \<^verbatim>\<open>KeyError\<close> shows
  the \<^verbatim>\<open>repr\<close> of the missing key, every other exception its message.\<close>

fun str_exception :: "py_exception \<Rightarrow> string" where
  "str_exception (SqliteError m) = m"
| "str_exception (KeyError k) = [CHR 0x27] @ k @ [CHR 0x27]"
| "str_exception (TypeError m) = m"
| "str_exception (OSError m) = m"
| "str_exception (ContainerParamError m) = m"
| "str_exception (RuntimeException m) = m"

subsection \<open>\<^verbatim>\<open>str\<close> of an integer\<close>

definition digit_char :: "nat \<Rightarrow> char" where
  "digit_char d = ''0123456789'' ! (d mod 10)"

fun str_nat :: "nat \<Rightarrow> string" where
  "str_nat n = (if n < 10 then [digit_char n] else str_nat (n div 10) @ [digit_char (n mod 10)])"

declare str_nat.simps [simp del]

definition str_int :: "int \<Rightarrow> string" where
  "str_int i = (if i < 0 then CHR ''-'' # str_nat (nat (- i)) else str_nat (nat i))"

subsection \<open>Dictionaries\<close>

text \<open>\<^verbatim>\<open>d[k] = v\<close>: a key already present keeps its position and takes the new value,
  a new key goes to the end.\<close>

fun dict_set :: "py_dict \<Rightarrow> py_value \<Rightarrow> py_value \<Rightarrow> py_dict" where
  "dict_set [] k v = [(k, v)]"
| "dict_set ((k', v') # d) k v = (if k' = k then (k', v) # d else (k', v') # dict_set d k v)"

text \<open>\<^verbatim>\<open>d[k]\<close> as an expression: \<^verbatim>\<open>KeyError\<close> when the key is missing. The worker only
  subscripts with string constants, so the key is given as a \<open>string\<close>.\<close>

definition dict_getitem :: "py_dict \<Rightarrow> string \<Rightarrow> py_exception + py_value" where
  "dict_getitem d k = (case map_of d (PyStr k) of None \<Rightarrow> Inl (KeyError k) | Some v \<Rightarrow> Inr v)"

text \<open>Truth value of an object, as \<^verbatim>\<open>if x:\<close> tests it.\<close>

fun truthy :: "py_value \<Rightarrow> bool" where
  "truthy PyNone = False"
| "truthy (PyBool b) = b"
| "truthy (PyInt i) = (i \<noteq> 0)"
| "truthy (PyStr s) = (s \<noteq> [])"
| "truthy (PyBytes bs) = (bs \<noteq> [])"
| "truthy (PyList xs) = (xs \<noteq> [])"
| "truthy (PyDict d) = (d \<noteq> [])"

subsection \<open>\<^verbatim>\<open>json.dump\<close> with an indent\<close>

text \<open>
  \<^verbatim>\<open>json.dump(obj, f, indent=n)\<close> writes the chunks of \<^verbatim>\<open>JSONEncoder.iterencode\<close> to
  the file one after the other (\<^verbatim>\<open>ensure_ascii\<close> on, separators \<^verbatim>\<open>","\<close> and
  \<^verbatim>\<open>": "\<close>). An object the encoder cannot serialise raises \<^verbatim>\<open>TypeError\<close> when the
  encoder reaches it, after the chunks before it have been written. The encoder is
  therefore modelled as a function to the text emitted and the exception that stopped it,
  if any.
\<close>

definition hex_char :: "nat \<Rightarrow> char" where
  "hex_char d = ''0123456789abcdef'' ! (d mod 16)"

text \<open>\<^verbatim>\<open>py_encode_basestring_ascii\<close>: printable ASCII stays, except the quote and
  the backslash; everything else is escaped.\<close>

definition escape_char :: "char \<Rightarrow> string" where
  "escape_char c =
     (if c = CHR 0x22 then [CHR 0x5C, CHR 0x22]
      else if c = CHR 0x5C then [CHR 0x5C, CHR 0x5C]
      else if c = CHR 0x0A then [CHR 0x5C, CHR ''n'']
      else if c = CHR 0x0D then [CHR 0x5C, CHR ''r'']
      else if c = CHR 0x09 then [CHR 0x5C, CHR ''t'']
      else if c = CHR 0x08 then [CHR 0x5C, CHR ''b'']
      else if c = CHR 0x0C then [CHR 0x5C, CHR ''f'']
      else if 32 \<le> (of_char c :: nat) \<and> (of_char c :: nat) \<le> 126 then [c]
      else [CHR 0x5C, CHR ''u'', CHR ''0'', CHR ''0'',
            hex_char ((of_char c :: nat) div 16), hex_char ((of_char c :: nat) mod 16)])"

definition encode_basestring :: "string \<Rightarrow> string" where
  "encode_basestring s = [CHR 0x22] @ concat (map escape_char s) @ [CHR 0x22]"

text \<open>The class name in the encoder's messages.\<close>

fun class_name :: "py_value \<Rightarrow> string" where
  "class_name PyNone = ''NoneType''"
| "class_name (PyBool b) = ''bool''"
| "class_name (PyInt i) = ''int''"
| "class_name (PyStr s) = ''str''"
| "class_name (PyBytes bs) = ''bytes''"
| "class_name (PyList xs) = ''list''"
| "class_name (PyDict d) = ''dict''"

text \<open>A dictionary key becomes the member name: a \<^verbatim>\<open>str\<close> as it is, \<^verbatim>\<open>True\<close>,
  \<^verbatim>\<open>False\<close>, \<^verbatim>\<open>None\<close> and an \<^verbatim>\<open>int\<close> in their JSON spelling; any other key
  raises \<^verbatim>\<open>TypeError\<close> (\<^verbatim>\<open>skipkeys\<close> is off).\<close>

fun key_string :: "py_value \<Rightarrow> py_exception + string" where
  "key_string (PyStr s) = Inr s"
| "key_string (PyBool b) = Inr (if b then ''true'' else ''false'')"
| "key_string PyNone = Inr ''null''"
| "key_string (PyInt i) = Inr (str_int i)"
| "key_string k =
     Inl (TypeError (''keys must be str, int, float, bool or None, not '' @ class_name k))"

definition newline_indent :: "nat \<Rightarrow> nat \<Rightarrow> string" where
  "newline_indent ind level = CHR 0x0A # replicate (ind * level) CHR '' ''"

fun iterencode :: "nat \<Rightarrow> nat \<Rightarrow> py_value \<Rightarrow> string \<times> py_exception option"
  and iterencode_list :: "nat \<Rightarrow> nat \<Rightarrow> bool \<Rightarrow> py_value list \<Rightarrow> string \<times> py_exception option"
  and iterencode_dict :: "nat \<Rightarrow> nat \<Rightarrow> bool \<Rightarrow> py_dict \<Rightarrow> string \<times> py_exception option"
where
  "iterencode ind level PyNone = (''null'', None)"
| "iterencode ind level (PyBool b) = (if b then ''true'' else ''false'', None)"
| "iterencode ind level (PyInt i) = (str_int i, None)"
| "iterencode ind level (PyStr s) = (encode_basestring s, None)"
| "iterencode ind level (PyBytes bs) =
     ([], Some (TypeError ''Object of type bytes is not JSON serializable''))"
| "iterencode ind level (PyList xs) =
     (if xs = [] then (''[]'', None)
      else case iterencode_list ind (Suc level) True xs of
             (t, Some e) \<Rightarrow> (''['' @ newline_indent ind (Suc level) @ t, Some e)
           | (t, None) \<Rightarrow>
               (''['' @ newline_indent ind (Suc level) @ t @ newline_indent ind level @ '']'', None))"
| "iterencode ind level (PyDict d) =
     (if d = [] then (''{}'', None)
      else case iterencode_dict ind (Suc level) True d of
             (t, Some e) \<Rightarrow> (''{'' @ newline_indent ind (Suc level) @ t, Some e)
           | (t, None) \<Rightarrow>
               (''{'' @ newline_indent ind (Suc level) @ t @ newline_indent ind level @ ''}'', None))"
| "iterencode_list ind level first [] = ([], None)"
| "iterencode_list ind level first (x # xs) =
     (let buf = (if first then [] else '','' @ newline_indent ind level) in
      case iterencode ind level x of
        (t, Some e) \<Rightarrow> (buf @ t, Some e)
      | (t, None) \<Rightarrow>
          (case iterencode_list ind level False xs of (t', r) \<Rightarrow> (buf @ t @ t', r)))"
| "iterencode_dict ind level first [] = ([], None)"
| "iterencode_dict ind level first ((k, v) # d) =
     (case key_string k of
        Inl e \<Rightarrow> ([], Some e)
      | Inr ks \<Rightarrow>
          (let buf = (if first then [] else '','' @ newline_indent ind level)
                     @ encode_basestring ks @ '': '' in
           case iterencode ind level v of
             (t, Some e) \<Rightarrow> (buf @ t, Some e)
           | (t, None) \<Rightarrow>
               (case iterencode_dict ind level False d of (t', r) \<Rightarrow> (buf @ t @ t', r))))"

text \<open>\<^verbatim>\<open>json.dumps(obj, indent=n)\<close>: the joined chunks, or the exception.\<close>

definition json_dumps :: "nat \<Rightarrow> py_value \<Rightarrow> py_exception + string" where
  "json_dumps ind obj =
     (case iterencode ind 0 obj of (t, None) \<Rightarrow> Inr t | (t, Some e) \<Rightarrow> Inl e)"

subsection \<open>\<^verbatim>\<open>json.loads\<close>\<close>

text \<open>
  Reading the artifact back is \<^verbatim>\<open>json.loads\<close> of the standard library (strict mode):
  whitespace, objects, arrays, strings with their escapes, the constants \<^verbatim>\<open>null\<close>,
  \<^verbatim>\<open>true\<close>, \<^verbatim>\<open>false\<close> and integers. A number with a fraction or an exponent, \<^verbatim>\<open>NaN\<close>
  and \<^verbatim>\<open>Infinity\<close> are floats, and an escape above code point 255 is outside
  \<open>char\<close>: for these, as for malformed text, the result is \<open>None\<close>. An object
  becomes a dictionary in the order of its members; a repeated name keeps its first
  position and takes the last value.
\<close>

definition digit_value :: "char \<Rightarrow> nat" where
  "digit_value c = of_char c - 48"

definition nat_of_digits :: "string \<Rightarrow> nat" where
  "nat_of_digits s = foldl (\<lambda>a c. 10 * a + digit_value c) 0 s"

definition is_ws :: "char \<Rightarrow> bool" where
  "is_ws c \<longleftrightarrow> c = CHR '' '' \<or> c = CHR 0x09 \<or> c = CHR 0x0A \<or> c = CHR 0x0D"

definition skip_ws :: "string \<Rightarrow> string" where
  "skip_ws s = dropWhile is_ws s"

definition is_digit :: "char \<Rightarrow> bool" where
  "is_digit c \<longleftrightarrow> 48 \<le> (of_char c :: nat) \<and> (of_char c :: nat) \<le> 57"

definition hex_value :: "char \<Rightarrow> nat option" where
  "hex_value c =
     (let n = (of_char c :: nat) in
      if 48 \<le> n \<and> n \<le> 57 then Some (n - 48)
      else if 97 \<le> n \<and> n \<le> 102 then Some (n - 87)
      else if 65 \<le> n \<and> n \<le> 70 then Some (n - 55)
      else None)"

definition unescape :: "char \<Rightarrow> char option" where
  "unescape e =
     (if e = CHR 0x22 then Some (CHR 0x22)
      else if e = CHR 0x5C then Some (CHR 0x5C)
      else if e = CHR ''/'' then Some (CHR ''/'')
      else if e = CHR ''b'' then Some (CHR 0x08)
      else if e = CHR ''f'' then Some (CHR 0x0C)
      else if e = CHR ''n'' then Some (CHR 0x0A)
      else if e = CHR ''r'' then Some (CHR 0x0D)
      else if e = CHR ''t'' then Some (CHR 0x09)
      else None)"

definition prepend :: "char \<Rightarrow> (string \<times> string) option \<Rightarrow> (string \<times> string) option" where
  "prepend c r = (case r of None \<Rightarrow> None | Some (s, rest) \<Rightarrow> Some (c # s, rest))"

text \<open>\<^verbatim>\<open>scanstring\<close>, from the character after the opening quote: the decoded text and
  the input after the closing quote.\<close>

fun scanstring :: "string \<Rightarrow> (string \<times> string) option" where
  "scanstring [] = None"
| "scanstring (c # cs) =
     (if c = CHR 0x22 then Some ([], cs)
      else if c = CHR 0x5C then
        (case cs of
           [] \<Rightarrow> None
         | e # cs1 \<Rightarrow>
             if e = CHR ''u'' then
               (case cs1 of
                  h1 # h2 # h3 # h4 # cs2 \<Rightarrow>
                    (case (hex_value h1, hex_value h2, hex_value h3, hex_value h4) of
                       (Some x1, Some x2, Some x3, Some x4) \<Rightarrow>
                         (let n = ((x1 * 16 + x2) * 16 + x3) * 16 + x4 in
                          if n < 256 then prepend (char_of n) (scanstring cs2) else None)
                     | _ \<Rightarrow> None)
                | _ \<Rightarrow> None)
             else (case unescape e of
                     None \<Rightarrow> None
                   | Some ch \<Rightarrow> prepend ch (scanstring cs1)))
      else if (of_char c :: nat) < 32 then None
      else prepend c (scanstring cs))"

text \<open>The integer part of \<^verbatim>\<open>NUMBER_RE\<close> is \<^verbatim>\<open>-?(0|[1-9][0-9]*)\<close>. A following \<^verbatim>\<open>.\<close>,
  \<^verbatim>\<open>e\<close> or \<^verbatim>\<open>E\<close> starts a float or is an error.\<close>

definition scan_number :: "string \<Rightarrow> (py_value \<times> string) option" where
  "scan_number s =
     (let negative = (s \<noteq> [] \<and> hd s = CHR ''-'');
          s1 = (if negative then tl s else s);
          digits = (if s1 \<noteq> [] \<and> hd s1 = CHR ''0'' then ''0'' else takeWhile is_digit s1);
          rest = drop (length digits) s1
      in if digits = [] then None
         else if rest \<noteq> [] \<and> hd rest \<in> {CHR ''.'', CHR ''e'', CHR ''E''} then None
         else Some (PyInt (if negative then - int (nat_of_digits digits)
                           else int (nat_of_digits digits)), rest))"

definition wrap :: "('a \<Rightarrow> py_value) \<Rightarrow> ('a \<times> string) option \<Rightarrow> (py_value \<times> string) option" where
  "wrap f r = (case r of None \<Rightarrow> None | Some (x, rest) \<Rightarrow> Some (f x, rest))"

text \<open>A scan only consumes text. The two bounds below make the recursion of the scanner
  well-founded, together with the guards \<open>length _ \<le> length s\<close> in the loops over
  members and elements; the guards are shown to be always true below
  (\<open>scan_members_unguarded\<close>, \<open>scan_elements_unguarded\<close>).\<close>

lemma prepend_shorter:
  "prepend c r = Some (t, rest) \<Longrightarrow> \<exists>t'. r = Some (t', rest)"
  by (auto simp: prepend_def split: option.splits)

lemma scanstring_shorter: "scanstring s = Some (t, rest) \<Longrightarrow> length rest < length s"
proof (induction "length s" arbitrary: s t rule: less_induct)
  case less
  have IH: "\<And>s' t'. scanstring s' = Some (t', rest) \<Longrightarrow> length s' < length s
              \<Longrightarrow> length rest < length s'"
    using less.hyps by blast
  show ?case
  proof (cases s)
    case Nil
    with less.prems show ?thesis by simp
  next
    case (Cons c cs)
    with less.prems show ?thesis
      by (auto split: if_splits list.splits option.splits prod.splits
          dest!: prepend_shorter simp: Let_def dest!: IH)
  qed
qed

lemma length_skip_ws: "length (skip_ws s) \<le> length s"
  by (simp add: skip_ws_def length_dropWhile_le)

function scan_once :: "string \<Rightarrow> (py_value \<times> string) option"
  and scan_members :: "string \<Rightarrow> py_dict \<Rightarrow> (py_dict \<times> string) option"
  and scan_elements :: "string \<Rightarrow> py_value list \<Rightarrow> (py_value list \<times> string) option"
where
  "scan_once s =
     (if s = [] then None
      else if hd s = CHR 0x22 then wrap PyStr (scanstring (tl s))
      else if hd s = CHR ''{'' then
        (let s1 = skip_ws (tl s) in
         if s1 \<noteq> [] \<and> hd s1 = CHR ''}'' then Some (PyDict [], tl s1)
         else wrap PyDict (scan_members s1 []))
      else if hd s = CHR ''['' then
        (let s1 = skip_ws (tl s) in
         if s1 \<noteq> [] \<and> hd s1 = CHR '']'' then Some (PyList [], tl s1)
         else wrap PyList (scan_elements s1 []))
      else if take 4 s = ''null'' then Some (PyNone, drop 4 s)
      else if take 4 s = ''true'' then Some (PyBool True, drop 4 s)
      else if take 5 s = ''false'' then Some (PyBool False, drop 5 s)
      else scan_number s)"
| "scan_members s acc =
     (if s = [] \<or> hd s \<noteq> CHR 0x22 then None
      else case scanstring (tl s) of
             None \<Rightarrow> None
           | Some (key, s1) \<Rightarrow>
               (let s2 = skip_ws s1 in
                if s2 = [] \<or> hd s2 \<noteq> CHR '':'' then None
                else case scan_once (skip_ws (tl s2)) of
                       None \<Rightarrow> None
                     | Some (v, s3) \<Rightarrow>
                         (let acc1 = dict_set acc (PyStr key) v; s4 = skip_ws s3 in
                          if s4 = [] then None
                          else if hd s4 = CHR ''}'' then Some (acc1, tl s4)
                          else if hd s4 = CHR '','' \<and> length s4 \<le> length s
                          then scan_members (skip_ws (tl s4)) acc1
                          else None)))"
| "scan_elements s acc =
     (case scan_once s of
        None \<Rightarrow> None
      | Some (v, s1) \<Rightarrow>
          (let s2 = skip_ws s1 in
           if s2 = [] then None
           else if hd s2 = CHR '']'' then Some (acc @ [v], tl s2)
           else if hd s2 = CHR '','' \<and> length s2 \<le> length s
           then scan_elements (skip_ws (tl s2)) (acc @ [v])
           else None))"
  by pat_completeness auto

termination
proof (relation "measure (\<lambda>x. case x of
                    Inl s \<Rightarrow> 2 * length s
                  | Inr (Inl (s, acc)) \<Rightarrow> 2 * length s + 1
                  | Inr (Inr (s, acc)) \<Rightarrow> 2 * length s + 1)", goal_cases)
  case 1
  then show ?case by simp
next
  case (2 s s1)
  have "length (skip_ws (tl s)) \<le> length (tl s)" by (rule length_skip_ws)
  with 2 show ?case by (cases s) auto
next
  case (3 s s1)
  have "length (skip_ws (tl s)) \<le> length (tl s)" by (rule length_skip_ws)
  with 3 show ?case by (cases s) auto
next
  case (4 s acc x2 key s1 s2)
  then have "length s1 < length (tl s)"
    using scanstring_shorter [of "tl s" key s1] by simp
  moreover have "length (skip_ws (tl (skip_ws s1))) \<le> length (tl (skip_ws s1))"
    by (rule length_skip_ws)
  moreover have "length (tl (skip_ws s1)) \<le> length s1"
    using length_skip_ws [of s1] by simp
  ultimately show ?case using 4 by (cases s) auto
next
  case (5 s acc x2 key s1 s2 x2a v s3 acc1 s4)
  have "length (skip_ws (tl s4)) \<le> length (tl s4)" by (rule length_skip_ws)
  moreover from 5 have "s4 \<noteq> []" and "length s4 \<le> length s" by auto
  then have "length (tl s4) < length s" by (cases s4) auto
  ultimately show ?case by simp
next
  case (6 s acc)
  then show ?case by simp
next
  case (7 s acc x2 v s1 s2)
  have "length (skip_ws (tl s2)) \<le> length (tl s2)" by (rule length_skip_ws)
  moreover from 7 have "s2 \<noteq> []" and "length s2 \<le> length s" by auto
  then have "length (tl s2) < length s" by (cases s2) auto
  ultimately show ?case by simp
qed

declare scan_once.simps [simp del] scan_members.simps [simp del] scan_elements.simps [simp del]


section \<open>The collaborators of the worker\<close>

subsection \<open>The tabular data source\<close>

text \<open>
  The worker reads one table, \<^verbatim>\<open>results\<close>, of an SQLite file. A table is its column
  names and its rows, a row holding one value per column. The statements the worker
  issues are all of the form \<^verbatim>\<open>SELECT columns FROM results [LIMIT n]\<close>; a statement is
  represented by its column list (\<open>None\<close> for \<^verbatim>\<open>*\<close>) and its limit. Column names are
  matched as they are spelt. SQLite matches them without regard to case and names the
  columns of the result as the table declares them; the tables considered here declare
  their columns in the spelling of the worker's statements, where the two agree.
\<close>

record results_table =
  columns :: "string list"
  rows :: "py_value list list"

record select_stmt =
  sel_columns :: "string list option"
  sel_limit :: "nat option"

text \<open>The value of a row in a column; SQLite has a value (possibly NULL) in every
  column of every row.\<close>

definition cell :: "results_table \<Rightarrow> py_value list \<Rightarrow> string \<Rightarrow> py_value" where
  "cell t r c = (case map_of (zip (columns t) r) c of None \<Rightarrow> PyNone | Some v \<Rightarrow> v)"

text \<open>\<^verbatim>\<open>dict(row)\<close> for a \<^verbatim>\<open>sqlite3.Row\<close>: the column names of the result with the
  values of the row.\<close>

definition dict_of_row :: "string list \<Rightarrow> py_value list \<Rightarrow> py_dict" where
  "dict_of_row names r = foldl (\<lambda>d (c, v). dict_set d (PyStr c) v) [] (zip names r)"

text \<open>\<^verbatim>\<open>cursor.execute(stmt)\<close> followed by \<^verbatim>\<open>cursor.fetchall()\<close> and \<^verbatim>\<open>dict(row)\<close>
  on every row: the rows in table order, or \<^verbatim>\<open>sqlite3.OperationalError\<close> for a
  column the table does not have.\<close>

definition select_rows :: "select_stmt \<Rightarrow> results_table \<Rightarrow> py_exception + py_dict list" where
  "select_rows stmt t =
     (let names = (case sel_columns stmt of None \<Rightarrow> columns t | Some cs \<Rightarrow> cs) in
      case filter (\<lambda>c. c \<notin> set (columns t)) names of
        c # _ \<Rightarrow> Inl (SqliteError (''no such column: '' @ c))
      | [] \<Rightarrow>
          (let selected = map (\<lambda>r. dict_of_row names (map (cell t r) names)) (rows t) in
           Inr (case sel_limit stmt of None \<Rightarrow> selected | Some n \<Rightarrow> take n selected)))"

subsection \<open>The query engine\<close>

text \<open>A JSON payload, as the engine's answer carries it in \<^verbatim>\<open>data\<close>.\<close>

datatype json =
    JNull
  | JBool bool
  | JInt int
  | JStr string
  | JArr "json list"
  | JObj "(string \<times> json) list"

fun py_of_json :: "json \<Rightarrow> py_value"
  and py_of_members :: "(string \<times> json) list \<Rightarrow> py_dict"
  and py_of_elements :: "json list \<Rightarrow> py_value list"
where
  "py_of_json JNull = PyNone"
| "py_of_json (JBool b) = PyBool b"
| "py_of_json (JInt i) = PyInt i"
| "py_of_json (JStr s) = PyStr s"
| "py_of_json (JArr xs) = PyList (py_of_elements xs)"
| "py_of_json (JObj ms) = PyDict (py_of_members ms)"
| "py_of_members [] = []"
| "py_of_members ((k, v) # ms) = (PyStr k, py_of_json v) # py_of_members ms"
| "py_of_elements [] = []"
| "py_of_elements (x # xs) = py_of_json x # py_of_elements xs"

text \<open>
  \<^verbatim>\<open>QueryEngineClient\<close> and its result class live in the module
  \<^verbatim>\<open>query_engine_client\<close>, which \<^verbatim>\<open>worker.py\<close> only imports. The worker reads four
  attributes of the result. The call itself is a parameter of the model: given the
  request and the databases, it returns a result or raises, and may have filled the
  database the worker reads afterwards.
\<close>

record query_result =
  success :: bool
  error :: "string option"
  status_code :: "int option"
  data :: "json option"

record engine_request =
  req_query :: "string option"
  req_query_signature :: "string option"
  req_db_path :: string
  req_compute_job_id :: "int option"
  req_data_refiner_id :: "int option"
  req_query_params :: "string list"

type_synonym databases = "string \<Rightarrow> string + results_table"

type_synonym query_engine =
  "engine_request \<Rightarrow> databases \<Rightarrow> (py_exception + query_result) \<times> databases"

subsection \<open>The parameters\<close>

text \<open>
  \<^verbatim>\<open>ContainerParams\<close> lives in the module \<^verbatim>\<open>container_params\<close>, which
  \<^verbatim>\<open>worker.py\<close> only imports. The worker reads the attributes below, calls the method
  \<^verbatim>\<open>validate_production_mode()\<close> and formats the object in one f-string; the value
  that method returns for the object and the text of the object are carried as the fields
  \<open>validate_production_mode\<close> and \<open>params_str\<close>.
\<close>

record container_params =
  dev_mode :: bool
  db_path :: string
  stats_path :: string
  query :: "string option"
  query_signature :: "string option"
  compute_job_id :: "int option"
  data_refiner_id :: "int option"
  query_params :: "string list"
  validate_production_mode :: bool
  params_str :: string

subsection \<open>The world the worker runs in\<close>

text \<open>
  \<open>databases\<close>: for each path, the table \<^verbatim>\<open>results\<close> of the SQLite file there, or the
  message of the \<^verbatim>\<open>sqlite3.Error\<close> that reading it raises (no such file, no such table).
  \<open>files\<close>: the content of the regular files the worker writes.
  \<open>mkdir_error\<close>, \<open>open_error\<close>: for an output path, the message of the \<^verbatim>\<open>OSError\<close>
  that creating its parent directories, respectively opening it for writing, raises, if
  any. Failures of the device while an open file is written are not modelled.
  \<open>stdout\<close>: the lines printed by \<^verbatim>\<open>worker.py\<close>.
  \<open>engine_log\<close>, \<open>sql_log\<close>: the calls made to the query engine and the statements
  executed on a database, in order.
\<close>

record world =
  databases :: databases
  files :: "string \<rightharpoonup> string"
  mkdir_error :: "string \<Rightarrow> string option"
  open_error :: "string \<Rightarrow> string option"
  stdout :: "string list"
  engine_log :: "engine_request list"
  sql_log :: "(string \<times> select_stmt) list"

definition print :: "string \<Rightarrow> world \<Rightarrow> world" where
  "print line w = w\<lparr>stdout := stdout w @ [line]\<rparr>"

text \<open>An optional string inside an f-string: \<^verbatim>\<open>None\<close> prints as \<^verbatim>\<open>None\<close>.\<close>

definition str_optional :: "string option \<Rightarrow> string" where
  "str_optional x = (case x of None \<Rightarrow> ''None'' | Some s \<Rightarrow> s)"

text \<open>Connecting to the database at a path, executing one statement and fetching all
  rows.\<close>

definition execute_fetchall ::
  "string \<Rightarrow> select_stmt \<Rightarrow> world \<Rightarrow> (py_exception + py_dict list) \<times> world" where
  "execute_fetchall path stmt w =
     (let w' = w\<lparr>sql_log := sql_log w @ [(path, stmt)]\<rparr> in
      case databases w path of
        Inl m \<Rightarrow> (Inl (SqliteError m), w')
      | Inr t \<Rightarrow> (select_rows stmt t, w'))"

section \<open>The worker\<close>

subsection \<open>Extraction strategies\<close>

text \<open>Every extraction function wraps its body in the same two handlers: a
  \<^verbatim>\<open>sqlite3.Error\<close> is reported as \<^verbatim>\<open>SQLite error\<close>, any other exception as
  \<^verbatim>\<open>Error querying database\<close>, and both are raised again.\<close>

fun reraise_query_error :: "py_exception \<Rightarrow> world \<Rightarrow> (py_exception + 'a) \<times> world" where
  "reraise_query_error (SqliteError m) w =
     (Inl (SqliteError m), print (''SQLite error: '' @ m) w)"
| "reraise_query_error e w =
     (Inl e, print (''Error querying database: '' @ str_exception e) w)"

text \<open>The loop of \<^verbatim>\<open>get_chat_messages\<close>: every row is stored under the text of a
  counter that starts at 0.\<close>

fun chat_messages_loop :: "py_dict list \<Rightarrow> py_dict \<Rightarrow> int \<Rightarrow> py_dict" where
  "chat_messages_loop [] messages index_counter = messages"
| "chat_messages_loop (row_dict # rest) messages index_counter =
     chat_messages_loop rest
       (dict_set messages (PyStr (str_int index_counter)) (PyDict row_dict))
       (index_counter + 1)"

definition get_chat_messages :: "string \<Rightarrow> world \<Rightarrow> (py_exception + py_dict) \<times> world" where
  "get_chat_messages path w =
     (case execute_fetchall path
             \<lparr>sel_columns = Some [''SenderID''], sel_limit = Some 10\<rparr> w of
        (Inl e, w') \<Rightarrow> reraise_query_error e w'
      | (Inr fetched, w') \<Rightarrow> (Inr (chat_messages_loop fetched [] 0), w'))"

text \<open>The loop that \<^verbatim>\<open>get_submission_chats\<close>, \<^verbatim>\<open>get_submissions\<close> and
  \<^verbatim>\<open>get_users\<close> share word for word, up to the name of the key column: the row is
  subscripted with the key column and stored under the value found.\<close>

fun rows_by_key :: "string \<Rightarrow> py_dict list \<Rightarrow> py_dict \<Rightarrow> py_exception + py_dict" where
  "rows_by_key key_column [] acc = Inr acc"
| "rows_by_key key_column (row_dict # rest) acc =
     (case dict_getitem row_dict key_column of
        Inl e \<Rightarrow> Inl e
      | Inr key \<Rightarrow> rows_by_key key_column rest (dict_set acc key (PyDict row_dict)))"

definition extract_by_key ::
  "select_stmt \<Rightarrow> string \<Rightarrow> string \<Rightarrow> world \<Rightarrow> (py_exception + py_dict) \<times> world" where
  "extract_by_key stmt key_column path w =
     (case execute_fetchall path stmt w of
        (Inl e, w') \<Rightarrow> reraise_query_error e w'
      | (Inr fetched, w') \<Rightarrow>
          (case rows_by_key key_column fetched [] of
             Inl e \<Rightarrow> reraise_query_error e w'
           | Inr d \<Rightarrow> (Inr d, w')))"

definition get_submission_chats :: "string \<Rightarrow> world \<Rightarrow> (py_exception + py_dict) \<times> world" where
  "get_submission_chats =
     extract_by_key
       \<lparr>sel_columns = Some [''FirstMessageDate'', ''LastMessageDate'', ''ParticipantCount''],
        sel_limit = None\<rparr>
       ''SubmissionChatID''"

definition get_submissions :: "string \<Rightarrow> world \<Rightarrow> (py_exception + py_dict) \<times> world" where
  "get_submissions =
     extract_by_key
       \<lparr>sel_columns =
          Some [''SubmissionID'', ''UserID'', ''SubmissionDate'', ''SubmissionReference''],
        sel_limit = None\<rparr>
       ''SubmissionID''"


subsection \<open>Writing the artifact\<close>

definition save_failed :: "py_exception \<Rightarrow> world \<Rightarrow> (py_exception + unit) \<times> world" where
  "save_failed e w = (Inl e, print (''Error saving JSON: '' @ str_exception e) w)"

text \<open>\<^verbatim>\<open>open(output_path, "w")\<close> empties the file; \<^verbatim>\<open>json.dump\<close> then writes chunk
  after chunk, and the \<^verbatim>\<open>with\<close> statement closes the file whether or not the encoder
  raised.\<close>

definition save_stats_to_json :: "py_value \<Rightarrow> string \<Rightarrow> world \<Rightarrow> (py_exception + unit) \<times> world" where
  "save_stats_to_json data_arg output_path w =
     (case mkdir_error w output_path of
        Some m \<Rightarrow> save_failed (OSError m) w
      | None \<Rightarrow>
          (case open_error w output_path of
             Some m \<Rightarrow> save_failed (OSError m) w
           | None \<Rightarrow>
               (case iterencode 4 0 data_arg of
                  (written, Some e) \<Rightarrow>
                    save_failed e (w\<lparr>files := (files w)(output_path \<mapsto> written)\<rparr>)
                | (written, None) \<Rightarrow>
                    (Inr (), print (''Stats saved to '' @ output_path)
                               (w\<lparr>files := (files w)(output_path \<mapsto> written)\<rparr>)))))"

subsection \<open>Query execution\<close>

definition request_of :: "container_params \<Rightarrow> engine_request" where
  "request_of params =
     \<lparr>req_query = query params, req_query_signature = query_signature params,
      req_db_path = db_path params, req_compute_job_id = compute_job_id params,
      req_data_refiner_id = data_refiner_id params, req_query_params = query_params params\<rparr>"

text \<open>The message composed when the result's \<^verbatim>\<open>success\<close> is false. The status code
  and the payload are added when they are true in Python's sense, so a status code of 0
  is left out.\<close>

definition error_msg :: "query_result \<Rightarrow> py_exception + string" where
  "error_msg query_result =
     (let m0 = ''Error executing query: '' @ str_optional (error query_result);
          m1 = (case status_code query_result of
                  None \<Rightarrow> m0
                | Some c \<Rightarrow>
                    if c \<noteq> 0 then m0 @ '' (Status code: '' @ str_int c @ '')'' else m0)
      in case data query_result of
           None \<Rightarrow> Inr m1
         | Some d \<Rightarrow>
             if truthy (py_of_json d)
             then (case json_dumps 2 (py_of_json d) of
                     Inl e \<Rightarrow> Inl e
                   | Inr text \<Rightarrow> Inr (m1 @ [CHR 0x0A] @ ''Response data: '' @ text))
             else Inr m1)"

text \<open>Constructing the \<^verbatim>\<open>QueryEngineClient\<close> and calling its \<^verbatim>\<open>execute_query\<close> are
  one step of the model: the parameter \<open>engine\<close>, applied to the arguments of both. The
  source constructs the client before it prints the line \<^verbatim>\<open>Executing query\<close> and calls
  it after; the model places the whole step after the line, so an exception of the
  constructor, which the source raises before anything is printed, is in the model an
  exception of the step, raised after the line. The statements below about the query stage
  are about an engine that answers.\<close>

definition execute_query ::
  "container_params \<Rightarrow> query_engine \<Rightarrow> world \<Rightarrow> (py_exception + bool) \<times> world" where
  "execute_query params engine w =
     (if \<not> validate_production_mode params then (Inr False, w)
      else
        (let w1 = print (''Executing query: '' @ str_optional (query params)) w;
             answer = engine (request_of params) (databases w1);
             w2 = w1\<lparr>databases := snd answer,
                     engine_log := engine_log w1 @ [request_of params]\<rparr>
         in case fst answer of
              Inl e \<Rightarrow> (Inl e, w2)
            | Inr query_result \<Rightarrow>
                if \<not> success query_result
                then (case error_msg query_result of
                        Inl e \<Rightarrow> (Inl e, w2)
                      | Inr m \<Rightarrow> (Inr False, print m w2))
                else (Inr True,
                      print (''Query executed successfully, processing results from ''
                             @ db_path params) w2)))"

subsection \<open>The driver\<close>

text \<open>The active \<^verbatim>\<open>process_results\<close> is the one on \<^verbatim>\<open>get_submission_chats\<close>; the
  others are commented out in the source.\<close>

definition process_results :: "container_params \<Rightarrow> world \<Rightarrow> (py_exception + unit) \<times> world" where
  "process_results params w =
     (case get_submission_chats (db_path params) w of
        (Inl e, w') \<Rightarrow> (Inl e, w')
      | (Inr chats, w') \<Rightarrow>
          if chats \<noteq> []
          then save_stats_to_json (PyDict chats) (stats_path params)
                 (print (''Found '' @ str_int (int (length chats))
                         @ '' submission chats in the database!'') w')
          else save_stats_to_json (PyDict []) (stats_path params)
                 (print ''No submission chats found in the database!'' w'))"

text \<open>The outer handler of \<^verbatim>\<open>main\<close>: an \<^verbatim>\<open>Exception\<close> is reported and the process
  exits with 3; without one, \<^verbatim>\<open>main\<close> returns and the process exits with 0.\<close>

fun finish :: "(py_exception + unit) \<times> world \<Rightarrow> nat \<times> world" where
  "finish (Inl e, w) = (3, print (''Error in worker execution: '' @ str_exception e) w)"
| "finish (Inr u, w) = (0, w)"

text \<open>The inner handler catches \<^verbatim>\<open>ContainerParamError\<close> only; \<^verbatim>\<open>sys.exit\<close> raises
  \<^verbatim>\<open>SystemExit\<close>, which the outer handler (for \<^verbatim>\<open>Exception\<close>) lets through.\<close>

fun load_failed :: "py_exception \<Rightarrow> world \<Rightarrow> nat \<times> world" where
  "load_failed (ContainerParamError m) w =
     (1, print (''Error in container parameters: '' @ m) w)"
| "load_failed e w = finish (Inl e, w)"

text \<open>\<^verbatim>\<open>main\<close>, given what \<^verbatim>\<open>ContainerParams.from_env()\<close> returned or raised.\<close>

definition main ::
  "py_exception + container_params \<Rightarrow> query_engine \<Rightarrow> world \<Rightarrow> nat \<times> world" where
  "main loaded engine w =
     (case loaded of
        Inl e \<Rightarrow> load_failed e w
      | Inr params \<Rightarrow>
          (let w1 = print (''params: $'' @ params_str params) w in
           if dev_mode params
           then finish (process_results params
                  (print (''Processing query results from '' @ db_path params)
                     (print ''Running in DEVELOPMENT MODE - using local database file'' w1)))
           else (case execute_query params engine w1 of
                   (Inl e, w2) \<Rightarrow> finish (Inl e, w2)
                 | (Inr ok, w2) \<Rightarrow>
                     if \<not> ok then (2, w2) else finish (process_results params w2))))"

text \<open>
  Modelled from the spec: the validity of a configuration, which the module
  \<^verbatim>\<open>container_params\<close> (not among the sources) decides. The spec's invariant of a
  configuration is that in production mode all query-related fields are present and
  non-empty.
\<close>

definition query_fields_present :: "container_params \<Rightarrow> bool" where
  "query_fields_present cfg \<longleftrightarrow>
     query cfg \<noteq> None \<and> query cfg \<noteq> Some [] \<and>
     query_signature cfg \<noteq> None \<and> query_signature cfg \<noteq> Some [] \<and>
     compute_job_id cfg \<noteq> None \<and> data_refiner_id cfg \<noteq> None"

text \<open>
  Modelled from the spec: \<^verbatim>\<open>ContainerParams.from_env\<close>, of the module
  \<^verbatim>\<open>container_params\<close> that is not among the sources. The spec has the parameter source
  validate itself and fail fast: a configuration that violates the invariant is invalid
  before any I/O is attempted, which \<^verbatim>\<open>main\<close> sees as \<^verbatim>\<open>ContainerParamError\<close>. The
  argument is the configuration the environment describes.
\<close>

definition from_env :: "container_params \<Rightarrow> py_exception + container_params" where
  "from_env cfg =
     (if \<not> dev_mode cfg \<and> \<not> query_fields_present cfg
      then Inl (ContainerParamError ''missing query parameters for production mode'')
      else Inr cfg)"

section \<open>Example inputs\<close>

text \<open>Concrete tables, worlds, parameters and engines, on which the theorems below are
  instantiated.\<close>

definition chat_table :: results_table where
  "chat_table =
     \<lparr>columns = [''SubmissionChatID'', ''FirstMessageDate'', ''LastMessageDate'',
                 ''ParticipantCount''],
      rows = [[PyInt 7, PyStr ''2024-01-01'', PyStr ''2024-01-02'', PyInt 2]]\<rparr>"

definition duplicate_chat_table :: results_table where
  "duplicate_chat_table =
     \<lparr>columns = [''SubmissionChatID'', ''FirstMessageDate'', ''LastMessageDate'',
                 ''ParticipantCount''],
      rows = [[PyInt 7, PyStr ''2024-01-01'', PyStr ''2024-01-02'', PyInt 2],
              [PyInt 7, PyStr ''2024-02-01'', PyStr ''2024-02-02'', PyInt 3]]\<rparr>"

definition empty_table :: results_table where
  "empty_table =
     \<lparr>columns = [''SubmissionChatID'', ''FirstMessageDate'', ''LastMessageDate'',
                 ''ParticipantCount''],
      rows = []\<rparr>"

definition world_with :: "results_table \<Rightarrow> world" where
  "world_with t =
     \<lparr>databases = (\<lambda>p. if p = ''results.db'' then Inr t
                        else Inl ''unable to open database file''),
      files = [''out/stats.json'' \<mapsto> ''old''],
      mkdir_error = (\<lambda>p. None), open_error = (\<lambda>p. None),
      stdout = [], engine_log = [], sql_log = []\<rparr>"

definition dev_params :: container_params where
  "dev_params =
     \<lparr>dev_mode = True, db_path = ''results.db'', stats_path = ''out/stats.json'',
      query = None, query_signature = None, compute_job_id = None, data_refiner_id = None,
      query_params = [], validate_production_mode = True, params_str = ''ContainerParams''\<rparr>"

definition prod_params :: container_params where
  "prod_params =
     \<lparr>dev_mode = False, db_path = ''results.db'', stats_path = ''out/stats.json'',
      query = Some ''SELECT * FROM chats'', query_signature = Some ''0xabc'',
      compute_job_id = Some 1, data_refiner_id = Some 2,
      query_params = [], validate_production_mode = True, params_str = ''ContainerParams''\<rparr>"

definition engine_down :: query_engine where
  "engine_down request dbs = (Inl (RuntimeException ''connection refused''), dbs)"

definition engine_answering :: "query_result \<Rightarrow> query_engine" where
  "engine_answering r request dbs = (Inr r, dbs)"

definition timeout_result :: query_result where
  "timeout_result = \<lparr>success = False, error = Some ''timeout'', status_code = Some 504, data = None\<rparr>"

definition ok_result :: query_result where
  "ok_result = \<lparr>success = True, error = None, status_code = Some 200, data = None\<rparr>"


definition duplicate_submission_table :: results_table where
  "duplicate_submission_table =
     \<lparr>columns = [''SubmissionID'', ''UserID'', ''SubmissionDate'', ''SubmissionReference''],
      rows = [[PyInt 7, PyInt 1, PyStr ''2024-01-01'', PyStr ''first''],
              [PyInt 7, PyInt 2, PyStr ''2024-02-01'', PyStr ''second'']]\<rparr>"

definition sender_table :: results_table where
  "sender_table =
     \<lparr>columns = [''MessageID'', ''SenderID''],
      rows = [[PyInt 100, PyInt 42], [PyInt 101, PyInt 43]]\<rparr>"






section \<open>Auxiliary definitions\<close>

text \<open>The notions the proofs are stated with: the dictionary the synthetic-index strategy
  is shown to build, and the datasets that are shown to survive writing and reading back.\<close>

definition indexed_from :: "nat \<Rightarrow> py_dict list \<Rightarrow> py_dict" where
  "indexed_from n fetched =
     map (\<lambda>i. (PyStr (str_int (int (n + i))), PyDict (fetched ! i))) [0..<length fetched]"


text \<open>The values JSON has a literal for.\<close>

fun scalar :: "py_value \<Rightarrow> bool" where
  "scalar PyNone = True"
| "scalar (PyBool b) = True"
| "scalar (PyInt i) = True"
| "scalar (PyStr s) = True"
| "scalar v = False"

text \<open>The member name the encoder gives a key, and a dictionary with every key replaced by
  its member name: what is equal to the dictionary "modulo stringification of the keys".\<close>

definition member_name :: "py_value \<Rightarrow> string" where
  "member_name k = (case key_string k of Inl e \<Rightarrow> [] | Inr name \<Rightarrow> name)"



text \<open>A row as extraction builds it from a table without BLOB values: scalar values under
  distinct column names. A dataset of such rows whose keys JSON can name (no
  \<^verbatim>\<open>bytes\<close>), no two of them under the same member name.\<close>

fun is_str :: "py_value \<Rightarrow> bool" where
  "is_str (PyStr s) = True"
| "is_str v = False"

definition plain_row :: "py_dict \<Rightarrow> bool" where
  "plain_row r \<longleftrightarrow> distinct (map fst r) \<and> list_all (\<lambda>(k, v). is_str k \<and> scalar v) r"

fun is_plain_row :: "py_value \<Rightarrow> bool" where
  "is_plain_row (PyDict r) = plain_row r"
| "is_plain_row v = False"

definition key_ok :: "py_value \<Rightarrow> bool" where
  "key_ok k = (case key_string k of Inl e \<Rightarrow> False | Inr name \<Rightarrow> True)"

definition plain_dataset :: "py_dict \<Rightarrow> bool" where
  "plain_dataset d \<longleftrightarrow>
     distinct (map (\<lambda>kv. member_name (fst kv)) d)
     \<and> list_all (\<lambda>(k, v). key_ok k \<and> is_plain_row v) d"

text \<open>A table without BLOB values.\<close>

definition scalar_table :: "results_table \<Rightarrow> bool" where
  "scalar_table t \<longleftrightarrow> list_all (list_all scalar) (rows t)"

section \<open>Properties\<close>

subsection \<open>What each stage leaves untouched\<close>

lemma print_fields [simp]:
  "databases (print l w) = databases w" 
  "files (print l w) = files w"
  "mkdir_error (print l w) = mkdir_error w" 
  "open_error (print l w) = open_error w"
  "engine_log (print l w) = engine_log w"
  "sql_log (print l w) = sql_log w"
  "stdout (print l w) = stdout w @ [l]"
  by (simp_all add: print_def)

lemma reraise_query_error_fields [simp]:
  "fst (reraise_query_error e w) = Inl e"
  "databases (snd (reraise_query_error e w)) = databases w" 
  "files (snd (reraise_query_error e w)) = files w"
  "mkdir_error (snd (reraise_query_error e w)) = mkdir_error w" 
  "open_error (snd (reraise_query_error e w)) = open_error w"
  "engine_log (snd (reraise_query_error e w)) = engine_log w"
  "sql_log (snd (reraise_query_error e w)) = sql_log w"
  by (cases e; simp)+

lemma execute_fetchall_eq:
  "execute_fetchall path stmt w =
     (case databases w path of Inl m \<Rightarrow> Inl (SqliteError m) | Inr t \<Rightarrow> select_rows stmt t,
      w\<lparr>sql_log := sql_log w @ [(path, stmt)]\<rparr>)"
  by (simp add: execute_fetchall_def Let_def split: sum.splits)

lemma extract_by_key_fields [simp]:
  "databases (snd (extract_by_key stmt k path w)) = databases w" 
  "files (snd (extract_by_key stmt k path w)) = files w"
  "mkdir_error (snd (extract_by_key stmt k path w)) = mkdir_error w" 
  "open_error (snd (extract_by_key stmt k path w)) = open_error w"
  "engine_log (snd (extract_by_key stmt k path w)) = engine_log w"
  "sql_log (snd (extract_by_key stmt k path w)) = sql_log w @ [(path, stmt)]"
  by (simp_all add: extract_by_key_def execute_fetchall_eq split: sum.splits)

lemma save_failed_fields [simp]:
  "fst (save_failed e w) = Inl e"
  "databases (snd (save_failed e w)) = databases w" 
  "files (snd (save_failed e w)) = files w"
  "engine_log (snd (save_failed e w)) = engine_log w"
  "sql_log (snd (save_failed e w)) = sql_log w"
  by (simp_all add: save_failed_def)

lemma save_stats_to_json_frame [simp]:
  "databases (snd (save_stats_to_json d out w)) = databases w" 
  "engine_log (snd (save_stats_to_json d out w)) = engine_log w"
  "sql_log (snd (save_stats_to_json d out w)) = sql_log w"
  by (simp_all add: save_stats_to_json_def split: option.splits prod.splits)

lemma process_results_engine_log [simp]:
  "engine_log (snd (process_results params w)) = engine_log w"
proof -
  have "engine_log (snd (get_submission_chats (db_path params) w)) = engine_log w"
    by (simp add: get_submission_chats_def)
  then show ?thesis
    by (cases "get_submission_chats (db_path params) w")
       (auto simp: process_results_def split: sum.splits)
qed

lemma finish_snd_fields [simp]:
  "engine_log (snd (finish r)) = engine_log (snd r)"
  "files (snd (finish r)) = files (snd r)"
  "sql_log (snd (finish r)) = sql_log (snd r)"
  by (cases r; cases "fst r"; simp)+


lemma select_rows_present:
  assumes "set names \<subseteq> set (columns t)"
  shows "select_rows \<lparr>sel_columns = Some names, sel_limit = lim\<rparr> t =
           Inr (let selected = map (\<lambda>r. dict_of_row names (map (cell t r) names)) (rows t)
                in case lim of None \<Rightarrow> selected | Some n \<Rightarrow> take n selected)"
proof -
  have "filter (\<lambda>c. c \<notin> set (columns t)) names = []"
    using assms by (auto simp: filter_empty_conv)
  then show ?thesis by (simp add: select_rows_def Let_def)
qed

lemma get_submission_chats_no_rows:
  assumes "databases w path = Inr t" and "rows t = []"
    and "{''FirstMessageDate'', ''LastMessageDate'', ''ParticipantCount''} \<subseteq> set (columns t)"
  shows "get_submission_chats path w =
           (Inr [], w\<lparr>sql_log := sql_log w @
              [(path, \<lparr>sel_columns = Some [''FirstMessageDate'', ''LastMessageDate'',
                                            ''ParticipantCount''], sel_limit = None\<rparr>)]\<rparr>)"
  using assms
  by (simp add: get_submission_chats_def extract_by_key_def execute_fetchall_eq
      select_rows_present)

lemma process_results_no_rows:
  assumes "databases w path = Inr t" and "rows t = []"
    and "{''FirstMessageDate'', ''LastMessageDate'', ''ParticipantCount''} \<subseteq> set (columns t)"
    and "db_path params = path"
    and "mkdir_error w (stats_path params) = None" and "open_error w (stats_path params) = None"
  shows "fst (process_results params w) = Inr ()"
    and "files (snd (process_results params w)) (stats_path params) = Some ''{}''"
  using assms
  by (simp_all add: process_results_def get_submission_chats_no_rows [OF assms(1-3)]
      save_stats_to_json_def)

subsection \<open>The driver\<close>

text \<open>
  C6. In development mode the query-execution stage never runs: whatever the engine is,
  \<^verbatim>\<open>main\<close> prints its three lines and goes straight to \<open>process_results\<close>, and no
  call to the engine is made.
\<close>

theorem dev_mode_skips_query:
  assumes "dev_mode params"
  shows "main (Inr params) engine w =
           finish (process_results params
             (print (''Processing query results from '' @ db_path params)
                (print ''Running in DEVELOPMENT MODE - using local database file''
                   (print (''params: $'' @ params_str params) w))))
         \<and> engine_log (snd (main (Inr params) engine w)) = engine_log w"
  using assms by (simp add: main_def Let_def)

theorem dev_mode_skips_query_witness:
  "dev_mode dev_params
   \<and> engine_log (snd (main (Inr dev_params) engine_down (world_with empty_table))) = []"
  using dev_mode_skips_query [of dev_params engine_down "world_with empty_table"]
  by (simp add: dev_params_def world_with_def)

text \<open>
  C2 (against \<open>from_env\<close>, which is modelled from the spec). A production-mode
  configuration whose query text is missing or empty is rejected when the parameters are
  loaded: the exit code is 1, no call to the engine is made, no statement is executed
  and no file is written.
\<close>

theorem missing_query_exits_1:
  assumes "\<not> dev_mode cfg" and "query cfg = None \<or> query cfg = Some []"
  shows "fst (main (from_env cfg) engine w) = 1
         \<and> engine_log (snd (main (from_env cfg) engine w)) = engine_log w
         \<and> sql_log (snd (main (from_env cfg) engine w)) = sql_log w
         \<and> files (snd (main (from_env cfg) engine w)) = files w"
  using assms by (auto simp: main_def from_env_def query_fields_present_def)

theorem missing_query_exits_1_witness:
  "\<not> dev_mode (prod_params\<lparr>query := None\<rparr>)
   \<and> query (prod_params\<lparr>query := None\<rparr>) = None
   \<and> fst (main (from_env (prod_params\<lparr>query := None\<rparr>)) engine_down (world_with chat_table)) = 1
   \<and> engine_log (snd (main (from_env (prod_params\<lparr>query := None\<rparr>)) engine_down
        (world_with chat_table))) = []"
  using missing_query_exits_1 [of "prod_params\<lparr>query := None\<rparr>" engine_down "world_with chat_table"]
  by (simp add: prod_params_def world_with_def)

text \<open>On \<^verbatim>\<open>main\<close> alone: parameters that were loaded in production mode and fail
  \<^verbatim>\<open>validate_production_mode()\<close> end the run with exit code 2, again without a call to
  the engine, a statement or a file written.\<close>

lemma unvalidated_params_exit_2:
  assumes "\<not> dev_mode params" and "\<not> validate_production_mode params"
  shows "main (Inr params) engine w = (2, print (''params: $'' @ params_str params) w)"
  using assms by (simp add: main_def execute_query_def Let_def)

text \<open>
  C5. When the table \<^verbatim>\<open>results\<close> has no rows at the time extraction starts (in
  development mode at once, in production mode after \<open>execute_query\<close> returned true),
  the statement can be executed and the output path can be created and opened, then
  the process exits with 0 and the artifact holds exactly \<^verbatim>\<open>{}\<close>.
\<close>

theorem empty_results_write_empty_object:
  assumes "databases w' (db_path params) = Inr t" and "rows t = []"
    and "{''FirstMessageDate'', ''LastMessageDate'', ''ParticipantCount''} \<subseteq> set (columns t)"
    and "mkdir_error w' (stats_path params) = None"
    and "open_error w' (stats_path params) = None"
    and "(dev_mode params \<and>
            w' = print (''Processing query results from '' @ db_path params)
                   (print ''Running in DEVELOPMENT MODE - using local database file''
                      (print (''params: $'' @ params_str params) w)))
         \<or> (\<not> dev_mode params \<and>
            execute_query params engine (print (''params: $'' @ params_str params) w)
              = (Inr True, w'))"
  shows "fst (main (Inr params) engine w) = 0
         \<and> files (snd (main (Inr params) engine w)) (stats_path params) = Some ''{}''"
proof -
  have run: "main (Inr params) engine w = finish (process_results params w')"
    using assms(6) by (auto simp: main_def Let_def)
  have ok: "fst (process_results params w') = Inr ()"
    and written: "files (snd (process_results params w')) (stats_path params) = Some ''{}''"
    using process_results_no_rows [OF assms(1-3) refl assms(4,5)] by simp_all
  obtain w'' where "process_results params w' = (Inr (), w'')"
    using ok by (cases "process_results params w'") auto
  with written show ?thesis by (simp add: run)
qed

theorem empty_results_write_empty_object_witness:
  "fst (main (Inr dev_params) engine_down (world_with empty_table)) = 0
   \<and> files (snd (main (Inr dev_params) engine_down (world_with empty_table))) ''out/stats.json''
       = Some ''{}''
   \<and> fst (main (Inr prod_params) (engine_answering ok_result) (world_with empty_table)) = 0
   \<and> files (snd (main (Inr prod_params) (engine_answering ok_result) (world_with empty_table)))
         ''out/stats.json'' = Some ''{}''"
proof -
  let ?w = "world_with empty_table"
  let ?dev = "print (''Processing query results from '' @ db_path dev_params)
                (print ''Running in DEVELOPMENT MODE - using local database file''
                   (print (''params: $'' @ params_str dev_params) ?w))"
  let ?prod = "snd (execute_query prod_params (engine_answering ok_result)
                      (print (''params: $'' @ params_str prod_params) ?w))"
  have query: "execute_query prod_params (engine_answering ok_result)
                 (print (''params: $'' @ params_str prod_params) ?w) = (Inr True, ?prod)"
    by (simp add: execute_query_def prod_params_def engine_answering_def ok_result_def Let_def)
  have prod: "databases ?prod (db_path prod_params) = Inr empty_table"
    "mkdir_error ?prod (stats_path prod_params) = None"
    "open_error ?prod (stats_path prod_params) = None"
    by (simp_all add: execute_query_def prod_params_def engine_answering_def ok_result_def
        Let_def world_with_def)
  have table: "rows empty_table = []"
    "{''FirstMessageDate'', ''LastMessageDate'', ''ParticipantCount''}
       \<subseteq> set (columns empty_table)"
    by (simp_all add: empty_table_def)
  have "fst (main (Inr dev_params) engine_down ?w) = 0
        \<and> files (snd (main (Inr dev_params) engine_down ?w)) (stats_path dev_params)
            = Some ''{}''"
    using table
    by (intro empty_results_write_empty_object [of ?dev dev_params empty_table ?w engine_down])
       (simp_all add: dev_params_def world_with_def)
  moreover have "fst (main (Inr prod_params) (engine_answering ok_result) ?w) = 0
        \<and> files (snd (main (Inr prod_params) (engine_answering ok_result) ?w))
              (stats_path prod_params) = Some ''{}''"
    using table prod query
    by (intro empty_results_write_empty_object
                [of ?prod prod_params empty_table ?w "engine_answering ok_result"])
       (simp_all add: prod_params_def)
  ultimately show ?thesis
    by (simp add: dev_params_def prod_params_def)
qed

subsection \<open>Query execution\<close>

lemma snd_iterencode_simps:
  "snd (iterencode ind level (PyList xs)) = snd (iterencode_list ind (Suc level) True xs)"
  "snd (iterencode ind level (PyDict d)) = snd (iterencode_dict ind (Suc level) True d)"
  "snd (iterencode_list ind level first (x # xs)) =
     (case snd (iterencode ind level x) of
        Some e \<Rightarrow> Some e | None \<Rightarrow> snd (iterencode_list ind level False xs))"
  "snd (iterencode_dict ind level first ((k, v) # d)) =
     (case key_string k of
        Inl e \<Rightarrow> Some e
      | Inr ks \<Rightarrow>
          (case snd (iterencode ind level v) of
             Some e \<Rightarrow> Some e | None \<Rightarrow> snd (iterencode_dict ind level False d)))"
  by (auto simp: Let_def split: sum.splits prod.splits option.splits)

lemma iterencode_json_total:
  "snd (iterencode ind level (py_of_json j)) = None"
  "snd (iterencode_dict ind level first (py_of_members ms)) = None"
  "snd (iterencode_list ind level first (py_of_elements xs)) = None"
  by (induction j and ms and xs arbitrary: level and level first and level first
      rule: py_of_json_py_of_members_py_of_elements.induct)
     (simp_all add: snd_iterencode_simps del: iterencode.simps(6,7) iterencode_list.simps(2) iterencode_dict.simps(2))

lemma json_dumps_json:
  "json_dumps ind (py_of_json d) = Inr (fst (iterencode ind 0 (py_of_json d)))"
  using iterencode_json_total(1) [of ind 0 d]
  by (cases "iterencode ind 0 (py_of_json d)") (simp add: json_dumps_def)

lemma error_msg_returns: "\<exists>m. error_msg r = Inr m"
  by (simp add: error_msg_def Let_def json_dumps_json split: option.splits)

text \<open>
  C7. \<open>execute_query\<close> returns false, with the world as it was (so without a call to
  the engine), when \<^verbatim>\<open>validate_production_mode()\<close> is false. When it is true and the
  engine returns a result, \<open>execute_query\<close> returns (and does not raise) the result's
  \<^verbatim>\<open>success\<close> flag, after exactly one call to the engine.
\<close>

theorem execute_query_returns_success_flag:
  "(\<not> validate_production_mode params \<longrightarrow>
      execute_query params engine w = (Inr False, w))
   \<and> (validate_production_mode params
        \<and> fst (engine (request_of params) (databases w)) = Inr r \<longrightarrow>
      fst (execute_query params engine w) = Inr (success r)
      \<and> engine_log (snd (execute_query params engine w)) = engine_log w @ [request_of params])"
proof -
  obtain m where "error_msg r = Inr m" using error_msg_returns by blast
  then show ?thesis
    by (auto simp: execute_query_def Let_def)
qed


theorem execute_query_returns_success_flag_witness:
  "\<not> validate_production_mode (prod_params\<lparr>validate_production_mode := False\<rparr>)
   \<and> execute_query (prod_params\<lparr>validate_production_mode := False\<rparr>) engine_down
         (world_with chat_table) = (Inr False, world_with chat_table)
   \<and> validate_production_mode prod_params
   \<and> fst (engine_answering timeout_result (request_of prod_params)
            (databases (world_with chat_table))) = Inr timeout_result
   \<and> fst (execute_query prod_params (engine_answering timeout_result) (world_with chat_table))
       = Inr False"
  using execute_query_returns_success_flag
          [of "prod_params\<lparr>validate_production_mode := False\<rparr>" engine_down
              "world_with chat_table"]
        execute_query_returns_success_flag
          [of prod_params "engine_answering timeout_result" "world_with chat_table"
              timeout_result]
  by (simp add: prod_params_def engine_answering_def timeout_result_def)







subsection \<open>Dictionaries\<close>

lemma map_of_dict_set: "map_of (dict_set d k v) = (map_of d)(k \<mapsto> v)"
  by (induction d) (auto simp: fun_eq_iff)

lemma dict_set_keys: "fst ` set (dict_set d k v) = insert k (fst ` set d)"
proof -
  have "dom (map_of (dict_set d k v)) = insert k (dom (map_of d))"
    by (simp add: map_of_dict_set)
  then show ?thesis by (simp only: dom_map_of_conv_image_fst)
qed

lemma dict_set_new: "k \<notin> fst ` set d \<Longrightarrow> dict_set d k v = d @ [(k, v)]"
  by (induction d) auto

lemma dict_of_row_keys_aux:
  "fst ` set (foldl (\<lambda>d (c, v). dict_set d (PyStr c) v) d0 zs)
     = fst ` set d0 \<union> PyStr ` fst ` set zs"
proof (induction zs arbitrary: d0)
  case Nil
  then show ?case by simp
next
  case (Cons z zs)
  obtain c v where z: "z = (c, v)" by (cases z)
  show ?case
    unfolding z by (simp add: Cons.IH dict_set_keys)
qed

lemma dict_of_row_keys: "fst ` set (dict_of_row names vals) \<subseteq> PyStr ` set names"
  unfolding dict_of_row_def dict_of_row_keys_aux
  by (auto dest: set_zip_leftD)

lemma dict_getitem_missing:
  "k \<notin> set names \<Longrightarrow> dict_getitem (dict_of_row names vals) k = Inl (KeyError k)"
proof -
  assume "k \<notin> set names"
  then have "PyStr k \<notin> fst ` set (dict_of_row names vals)"
    using dict_of_row_keys [of names vals] by auto
  then have "map_of (dict_of_row names vals) (PyStr k) = None"
    by (simp add: map_of_eq_None_iff)
  then show ?thesis by (simp add: dict_getitem_def)
qed

subsection \<open>The chat-centric strategy\<close>

text \<open>The statement of \<open>get_submission_chats\<close> does not select the column its loop
  subscripts, so the first row already raises \<^verbatim>\<open>KeyError\<close>.\<close>

lemma get_submission_chats_raises:
  assumes "databases w path = Inr t" and "rows t \<noteq> []"
    and "{''FirstMessageDate'', ''LastMessageDate'', ''ParticipantCount''} \<subseteq> set (columns t)"
  shows "fst (get_submission_chats path w) = Inl (KeyError ''SubmissionChatID'')"
proof -
  let ?names = "[''FirstMessageDate'', ''LastMessageDate'', ''ParticipantCount'']"
  obtain r rs where rows: "rows t = r # rs"
    using assms(2) by (cases "rows t") auto
  have "dict_getitem (dict_of_row ?names vals) ''SubmissionChatID''
          = Inl (KeyError ''SubmissionChatID'')" for vals
    by (rule dict_getitem_missing) simp
  then show ?thesis
    using assms(1,3) rows
    by (simp add: get_submission_chats_def extract_by_key_def execute_fetchall_eq
        select_rows_present)
qed

text \<open>
  C1, evaluated on a table with one chat: extraction does not return a mapping with one
  entry but raises \<^verbatim>\<open>KeyError('SubmissionChatID')\<close>; \<^verbatim>\<open>main\<close> exits with 3 and the
  artifact keeps its old content.
\<close>

theorem chat_extraction_raises_key_error:
  "fst (get_submission_chats ''results.db'' (world_with chat_table))
     = Inl (KeyError ''SubmissionChatID'')
   \<and> fst (main (Inr dev_params) engine_down (world_with chat_table)) = 3
   \<and> files (snd (main (Inr dev_params) engine_down (world_with chat_table))) ''out/stats.json''
       = Some ''old''"
  by code_simp

subsection \<open>Rows that share a key\<close>

text \<open>The loop shared by the strategies with a natural key returns whenever every row
  has the key column, and then holds, under each key, the last row with that key.\<close>

lemma rows_by_key_returns:
  assumes "\<forall>r \<in> set fetched. \<exists>k. dict_getitem r key_column = Inr k"
  shows "\<exists>d. rows_by_key key_column fetched acc = Inr d"
  using assms by (induction fetched arbitrary: acc) auto

lemma rows_by_key_last_wins_aux:
  assumes "rows_by_key key_column fetched acc = Inr d"
  shows "map_of d k =
           (case filter (\<lambda>r. dict_getitem r key_column = Inr k) fetched of
              [] \<Rightarrow> map_of acc k
            | r # rs \<Rightarrow> Some (PyDict (last (r # rs))))"
  using assms
proof (induction fetched arbitrary: acc)
  case Nil
  then show ?case by simp
next
  case (Cons row rest)
  then obtain key where key: "dict_getitem row key_column = Inr key"
    and rest: "rows_by_key key_column rest (dict_set acc key (PyDict row)) = Inr d"
    by (auto split: sum.splits)
  show ?case
    using Cons.IH [OF rest] key
    by (auto simp: map_of_dict_set split: list.splits)
qed

lemma rows_by_key_last_wins:
  assumes "rows_by_key key_column fetched [] = Inr d"
    and "r \<in> set fetched" and "dict_getitem r key_column = Inr k"
  shows "map_of d k =
           Some (PyDict (last (filter (\<lambda>r. dict_getitem r key_column = Inr k) fetched)))"
proof -
  have "filter (\<lambda>r. dict_getitem r key_column = Inr k) fetched \<noteq> []"
    using assms(2,3) by (auto simp: filter_empty_conv)
  then show ?thesis
    using rows_by_key_last_wins_aux [OF assms(1), of k] by (auto split: list.splits)
qed

text \<open>
  C10, evaluated on two rows that share their key: \<open>get_submissions\<close> keeps the later
  row, while \<open>get_submission_chats\<close> raises \<^verbatim>\<open>KeyError('SubmissionChatID')\<close>.
\<close>

theorem duplicate_chat_ids_raise_key_error:
  "fst (get_submission_chats ''results.db'' (world_with duplicate_chat_table))
     = Inl (KeyError ''SubmissionChatID'')
   \<and> fst (get_submissions ''results.db'' (world_with duplicate_submission_table))
     = Inr [(PyInt 7,
             PyDict [(PyStr ''SubmissionID'', PyInt 7), (PyStr ''UserID'', PyInt 2),
                     (PyStr ''SubmissionDate'', PyStr ''2024-02-01''),
                     (PyStr ''SubmissionReference'', PyStr ''second'')])]"
  by code_simp

subsection \<open>Decimal text\<close>

lemma digit_value_digit_char: "d < 10 \<Longrightarrow> digit_value (digit_char d) = d"
proof -
  assume "d < 10"
  then have "d \<in> {0, 1, 2, 3, 4, 5, 6, 7, 8, 9}" by auto
  then show ?thesis
    by (auto simp: digit_value_def digit_char_def)
qed

lemma nat_of_digits_snoc: "nat_of_digits (s @ [c]) = 10 * nat_of_digits s + digit_value c"
  by (simp add: nat_of_digits_def)

lemma nat_of_digits_str_nat: "nat_of_digits (str_nat n) = n"
proof (induction n rule: str_nat.induct)
  case (1 n)
  show ?case
  proof (cases "n < 10")
    case True
    then show ?thesis
      by (subst str_nat.simps) (simp add: nat_of_digits_def digit_value_digit_char)
  next
    case False
    then have "nat_of_digits (str_nat n) = 10 * (n div 10) + n mod 10"
      by (subst str_nat.simps)
         (simp add: nat_of_digits_snoc "1.IH" digit_value_digit_char)
    then show ?thesis by simp
  qed
qed

lemma str_nat_inj: "str_nat m = str_nat n \<Longrightarrow> m = n"
  by (metis nat_of_digits_str_nat)

lemma str_int_nat_inj: "str_int (int m) = str_int (int n) \<Longrightarrow> m = n"
  by (simp add: str_int_def str_nat_inj)

subsection \<open>The synthetic-index strategy\<close>

lemma indexed_from_Cons:
  "indexed_from n (r # rs) = (PyStr (str_int (int n)), PyDict r) # indexed_from (Suc n) rs"
proof -
  have "[0..<length (r # rs)] = 0 # map Suc [0..<length rs]"
    by (simp add: upt_conv_Cons map_Suc_upt del: upt_Suc)
  then show ?thesis
    by (simp add: indexed_from_def comp_def ac_simps del: upt_Suc)
qed

lemma chat_messages_loop_indexed:
  assumes "\<forall>j \<ge> n. PyStr (str_int (int j)) \<notin> fst ` set acc"
  shows "chat_messages_loop fetched acc (int n) = acc @ indexed_from n fetched"
  using assms
proof (induction fetched arbitrary: acc n)
  case Nil
  then show ?case by (simp add: indexed_from_def)
next
  case (Cons r rs)
  let ?acc = "acc @ [(PyStr (str_int (int n)), PyDict r)]"
  have new: "dict_set acc (PyStr (str_int (int n))) (PyDict r) = ?acc"
    using Cons.prems by (intro dict_set_new) simp
  have "\<forall>j \<ge> Suc n. PyStr (str_int (int j)) \<notin> fst ` set ?acc"
  proof (intro allI impI)
    fix j assume j: "Suc n \<le> j"
    then have "str_int (int j) \<noteq> str_int (int n)"
      using str_int_nat_inj [of j n] by auto
    moreover have "PyStr (str_int (int j)) \<notin> fst ` set acc"
      using Cons.prems j by simp
    ultimately show "PyStr (str_int (int j)) \<notin> fst ` set ?acc" by auto
  qed
  from Cons.IH [OF this] have
    "chat_messages_loop rs ?acc (int (Suc n)) = ?acc @ indexed_from (Suc n) rs" .
  moreover have "int n + 1 = int (Suc n)" by simp
  ultimately show ?case
    by (simp only: chat_messages_loop.simps new indexed_from_Cons) simp
qed

lemma indexed_from_keys:
  "map fst (indexed_from n fetched) = map (\<lambda>i. PyStr (str_int (int (n + i)))) [0..<length fetched]"
  by (simp add: indexed_from_def comp_def)

lemma indexed_from_distinct: "distinct (map fst (indexed_from n fetched))"
  unfolding indexed_from_keys
  by (auto simp: distinct_map inj_on_def simp del: of_nat_add dest!: str_int_nat_inj)

lemma indexed_from_lookup:
  assumes "i < length fetched"
  shows "map_of (indexed_from 0 fetched) (PyStr (str_int (int i))) = Some (PyDict (fetched ! i))"
proof -
  have "(PyStr (str_int (int i)), PyDict (fetched ! i)) \<in> set (indexed_from 0 fetched)"
    using assms by (auto simp: indexed_from_def)
  then show ?thesis
    using indexed_from_distinct [of 0 fetched] by simp
qed

text \<open>
  C8. When the statement of \<open>get_chat_messages\<close> returns the rows \<open>fetched\<close>, there are
  at most 10 of them (the limit of the statement), and the function returns a dictionary
  whose keys are exactly the decimal texts of \<open>0\<close>, ..., \<open>length fetched - 1\<close>, in this
  order, the key of \<open>i\<close> holding row \<open>i\<close>.
\<close>

theorem synthetic_index_keys:
  assumes "fst (execute_fetchall path \<lparr>sel_columns = Some [''SenderID''], sel_limit = Some 10\<rparr> w)
             = Inr fetched"
  shows "length fetched \<le> 10
         \<and> (\<exists>messages. fst (get_chat_messages path w) = Inr messages
              \<and> map fst messages = map (\<lambda>i. PyStr (str_int (int i))) [0..<length fetched]
              \<and> (\<forall>i < length fetched.
                    map_of messages (PyStr (str_int (int i))) = Some (PyDict (fetched ! i))))"
proof -
  have "length fetched \<le> 10"
    using assms
    by (auto simp: execute_fetchall_eq select_rows_def Let_def split: sum.splits list.splits)
  moreover have "chat_messages_loop fetched [] (int 0) = [] @ indexed_from 0 fetched"
    by (rule chat_messages_loop_indexed) simp
  then have "fst (get_chat_messages path w) = Inr (indexed_from 0 fetched)"
    using assms
    by (cases "execute_fetchall path \<lparr>sel_columns = Some [''SenderID''], sel_limit = Some 10\<rparr> w")
       (simp add: get_chat_messages_def)
  ultimately show ?thesis
    using indexed_from_keys [of 0 fetched] indexed_from_lookup [of _ fetched] by simp
qed

theorem synthetic_index_keys_witness:
  "fst (execute_fetchall ''results.db'' \<lparr>sel_columns = Some [''SenderID''], sel_limit = Some 10\<rparr>
          (world_with sender_table))
     = Inr [[(PyStr ''SenderID'', PyInt 42)], [(PyStr ''SenderID'', PyInt 43)]]
   \<and> (\<exists>messages. fst (get_chat_messages ''results.db'' (world_with sender_table)) = Inr messages
         \<and> map fst messages = [PyStr ''0'', PyStr ''1'']
         \<and> map_of messages (PyStr ''0'') = Some (PyDict [(PyStr ''SenderID'', PyInt 42)])
         \<and> map_of messages (PyStr ''1'') = Some (PyDict [(PyStr ''SenderID'', PyInt 43)]))"
proof -
  define fetched where
    "fetched = [[(PyStr ''SenderID'', PyInt 42)], [(PyStr ''SenderID'', PyInt 43)]]"
  have fetched: "fst (execute_fetchall ''results.db''
                   \<lparr>sel_columns = Some [''SenderID''], sel_limit = Some 10\<rparr>
                   (world_with sender_table)) = Inr fetched"
    unfolding fetched_def by code_simp
  have s: "str_int (int 0) = ''0''" "str_int (int 1) = ''1''" by code_simp+
  from synthetic_index_keys [OF fetched] obtain messages where
    m: "fst (get_chat_messages ''results.db'' (world_with sender_table)) = Inr messages"
    and keys: "map fst messages = map (\<lambda>i. PyStr (str_int (int i))) [0..<length fetched]"
    and vals: "\<forall>i < length fetched.
        map_of messages (PyStr (str_int (int i))) = Some (PyDict (fetched ! i))"
    by blast
  have "[0..<length fetched] = [0, 1]"
    by (simp add: fetched_def upt_rec)
  with keys have k: "map fst messages = [PyStr ''0'', PyStr ''1'']"
    by (simp only: list.map s)
  have len: "0 < length fetched" "1 < length fetched"
    by (simp_all add: fetched_def)
  have v0: "map_of messages (PyStr (str_int (int 0))) = Some (PyDict (fetched ! 0))"
    using vals len(1) by blast
  have v1: "map_of messages (PyStr (str_int (int 1))) = Some (PyDict (fetched ! 1))"
    using vals len(2) by blast
  have f0: "fetched ! 0 = [(PyStr ''SenderID'', PyInt 42)]"
    and f1: "fetched ! 1 = [(PyStr ''SenderID'', PyInt 43)]"
    by (simp_all add: fetched_def)
  have "map_of messages (PyStr ''0'') = Some (PyDict [(PyStr ''SenderID'', PyInt 42)])"
    using v0 by (simp only: s f0)
  moreover have "map_of messages (PyStr ''1'') = Some (PyDict [(PyStr ''SenderID'', PyInt 43)])"
    using v1 by (simp only: s f1)
  ultimately show ?thesis
    using fetched [unfolded fetched_def] m k by (intro conjI exI [of _ messages])
qed

subsection \<open>Writing the artifact\<close>









subsection \<open>Reading the artifact back\<close>

text \<open>The scanner only consumes text, so the guards in its two loops are always true:
  the loops satisfy the same equations without them.\<close>

lemma wrap_Some: "wrap f r = Some (v, rest) \<Longrightarrow> \<exists>x. r = Some (x, rest)"
  by (auto simp: wrap_def split: option.splits)

lemma scan_number_shorter: "scan_number s = Some (v, rest) \<Longrightarrow> length rest < length s"
proof -
  assume a: "scan_number s = Some (v, rest)"
  let ?s1 = "if s \<noteq> [] \<and> hd s = CHR ''-'' then tl s else s"
  let ?digits = "if ?s1 \<noteq> [] \<and> hd ?s1 = CHR ''0'' then ''0'' else takeWhile is_digit ?s1"
  from a have ne: "?digits \<noteq> []" and rest: "rest = drop (length ?digits) ?s1"
    by (auto simp: scan_number_def Let_def split: if_splits)
  have "?s1 \<noteq> []" using ne by (auto split: if_splits)
  then have "length rest < length ?s1"
    using ne rest by (cases "length ?digits") (auto split: if_splits)
  moreover have "length ?s1 \<le> length s" by simp
  ultimately show ?thesis by linarith
qed

lemma take_literal_shorter: "take n s = lit \<Longrightarrow> lit \<noteq> [] \<Longrightarrow> length (drop n s) < length s"
  by (cases s; cases n) auto

lemma tl_skip_ws_shorter: "s \<noteq> [] \<Longrightarrow> length (skip_ws (tl s)) < length s"
  using length_skip_ws [of "tl s"] by (cases s) auto

lemma scan_shorter:
  "scan_once s = Some (v, rest) \<Longrightarrow> length rest < length s"
  "scan_members s acc = Some (d, rest) \<Longrightarrow> length rest < length s"
  "scan_elements s xs = Some (ys, rest) \<Longrightarrow> length rest < length s"
proof (induction s and s acc and s xs arbitrary: v rest and d rest and ys rest
       rule: scan_once_scan_members_scan_elements.induct)
  case (1 s)
  have ne: "s \<noteq> []" using "1.prems" by (subst (asm) scan_once.simps) (simp split: if_splits)
  let ?s1 = "skip_ws (tl s)"
  have s1: "length ?s1 < length s" using ne by (rule tl_skip_ws_shorter)
  consider (str) "hd s = CHR 0x22"
    | (obj) "hd s \<noteq> CHR 0x22" "hd s = CHR ''{''"
    | (arr) "hd s \<noteq> CHR 0x22" "hd s \<noteq> CHR ''{''" "hd s = CHR ''[''"
    | (other) "hd s \<noteq> CHR 0x22" "hd s \<noteq> CHR ''{''" "hd s \<noteq> CHR ''[''"
    by blast
  then show ?case
  proof cases
    case str
    with "1.prems" ne obtain x where "scanstring (tl s) = Some (x, rest)"
      by (subst (asm) scan_once.simps) (auto dest: wrap_Some)
    from scanstring_shorter [OF this] ne show ?thesis by (cases s) auto
  next
    case obj
    show ?thesis
    proof (cases "?s1 \<noteq> [] \<and> hd ?s1 = CHR ''}''")
      case True
      with "1.prems" ne obj have "rest = tl ?s1"
        by (subst (asm) scan_once.simps) (simp add: Let_def)
      with True s1 show ?thesis by (cases ?s1) auto
    next
      case False
      with "1.prems" ne obj obtain x where x: "scan_members ?s1 [] = Some (x, rest)"
        by (subst (asm) scan_once.simps) (auto simp: Let_def dest: wrap_Some)
      from "1.IH"(1) [OF ne obj refl False x] s1 show ?thesis by simp
    qed
  next
    case arr
    show ?thesis
    proof (cases "?s1 \<noteq> [] \<and> hd ?s1 = CHR '']''")
      case True
      with "1.prems" ne arr have "rest = tl ?s1"
        by (subst (asm) scan_once.simps) (simp add: Let_def)
      with True s1 show ?thesis by (cases ?s1) auto
    next
      case False
      with "1.prems" ne arr obtain x where x: "scan_elements ?s1 [] = Some (x, rest)"
        by (subst (asm) scan_once.simps) (auto simp: Let_def dest: wrap_Some)
      from "1.IH"(2) [OF ne arr refl False x] s1 show ?thesis by simp
    qed
  next
    case other
    with "1.prems" ne show ?thesis
      by (subst (asm) scan_once.simps)
         (auto split: if_splits dest: scan_number_shorter
               intro: take_literal_shorter [of 4 s] take_literal_shorter [of 5 s])
  qed
next
  case (2 s acc)
  from "2.prems" have ne: "s \<noteq> []" and q: "hd s = CHR 0x22"
    by (subst (asm) scan_members.simps, simp split: if_splits)+
  from "2.prems" ne q obtain key s1 where key: "scanstring (tl s) = Some (key, s1)"
    by (subst (asm) scan_members.simps) (auto split: option.splits)
  let ?s2 = "skip_ws s1"
  from "2.prems" ne q key have s2: "?s2 \<noteq> []" "hd ?s2 = CHR '':''"
    by (subst (asm) scan_members.simps, auto simp: Let_def split: if_splits)+
  from "2.prems" ne q key s2 obtain v s3 where
    v: "scan_once (skip_ws (tl ?s2)) = Some (v, s3)"
    by (subst (asm) scan_members.simps) (auto simp: Let_def split: option.splits)
  let ?s4 = "skip_ws s3"
  let ?acc1 = "dict_set acc (PyStr key) v"
  have step: "(if ?s4 = [] then None
               else if hd ?s4 = CHR ''}'' then Some (?acc1, tl ?s4)
               else if hd ?s4 = CHR '','' \<and> length ?s4 \<le> length s
               then scan_members (skip_ws (tl ?s4)) ?acc1
               else None) = Some (d, rest)"
    using "2.prems" ne q key s2 v
    by (subst (asm) scan_members.simps) (simp add: Let_def)
  have "length s1 < length (tl s)" using scanstring_shorter [OF key] .
  then have l2: "length (skip_ws (tl ?s2)) < length s"
    using tl_skip_ws_shorter [OF s2(1)] length_skip_ws [of s1] by simp
  have l3: "length s3 < length (skip_ws (tl ?s2))"
    using "2.IH"(1) [of "(key, s1)" key s1 ?s2 v s3] ne q key s2 v by simp
  have l4: "length ?s4 < length s" using l2 l3 length_skip_ws [of s3] by simp
  from step have s4: "?s4 \<noteq> []" by (auto split: if_splits)
  show ?case
  proof (cases "hd ?s4 = CHR ''}''")
    case True
    with step s4 have "rest = tl ?s4" by simp
    with l4 s4 show ?thesis by (cases ?s4) auto
  next
    case False
    with step s4 have c: "hd ?s4 = CHR '',''" "length ?s4 \<le> length s"
      and r: "scan_members (skip_ws (tl ?s4)) ?acc1 = Some (d, rest)"
      by (auto split: if_splits)
    have "length rest < length (skip_ws (tl ?s4))"
      using "2.IH"(2) [of "(key, s1)" key s1 ?s2 "(v, s3)" v s3 ?acc1 ?s4 d rest]
        ne q key s2 v s4 False c r by simp
    with tl_skip_ws_shorter [OF s4] l4 show ?thesis by simp
  qed
next
  case (3 s xs)
  from "3.prems" obtain v s1 where v: "scan_once s = Some (v, s1)"
    by (subst (asm) scan_elements.simps) (auto split: option.splits)
  let ?s2 = "skip_ws s1"
  have step: "(if ?s2 = [] then None
               else if hd ?s2 = CHR '']'' then Some (xs @ [v], tl ?s2)
               else if hd ?s2 = CHR '','' \<and> length ?s2 \<le> length s
               then scan_elements (skip_ws (tl ?s2)) (xs @ [v])
               else None) = Some (ys, rest)"
    using "3.prems" v by (subst (asm) scan_elements.simps) (simp add: Let_def)
  have l1: "length s1 < length s" using "3.IH"(1) [OF v] .
  then have l2: "length ?s2 < length s" using length_skip_ws [of s1] by simp
  from step have s2: "?s2 \<noteq> []" by (auto split: if_splits)
  show ?case
  proof (cases "hd ?s2 = CHR '']''")
    case True
    with step s2 have "rest = tl ?s2" by simp
    with l2 s2 show ?thesis by (cases ?s2) auto
  next
    case False
    with step s2 have c: "hd ?s2 = CHR '',''" "length ?s2 \<le> length s"
      and r: "scan_elements (skip_ws (tl ?s2)) (xs @ [v]) = Some (ys, rest)"
      by (auto split: if_splits)
    have "length rest < length (skip_ws (tl ?s2))"
      using "3.IH"(2) [of "(v, s1)" v s1 ?s2 ys rest] v s2 False c r by simp
    with tl_skip_ws_shorter [OF s2] l2 show ?thesis by simp
  qed
qed


lemma scan_members_unguarded:
  "scan_members s acc =
     (if s = [] \<or> hd s \<noteq> CHR 0x22 then None
      else case scanstring (tl s) of
             None \<Rightarrow> None
           | Some (key, s1) \<Rightarrow>
               (let s2 = skip_ws s1 in
                if s2 = [] \<or> hd s2 \<noteq> CHR '':'' then None
                else case scan_once (skip_ws (tl s2)) of
                       None \<Rightarrow> None
                     | Some (v, s3) \<Rightarrow>
                         (let acc1 = dict_set acc (PyStr key) v; s4 = skip_ws s3 in
                          if s4 = [] then None
                          else if hd s4 = CHR ''}'' then Some (acc1, tl s4)
                          else if hd s4 = CHR '','' then scan_members (skip_ws (tl s4)) acc1
                          else None)))"
proof -
  have "length (skip_ws s3) \<le> length s"
    if "scanstring (tl s) = Some (key, s1)"
      and "scan_once (skip_ws (tl (skip_ws s1))) = Some (v, s3)" for key s1 v s3
  proof -
    have "length s3 < length (skip_ws (tl (skip_ws s1)))"
      using scan_shorter(1) [OF that(2)] .
    also have "\<dots> \<le> length (tl (skip_ws s1))" by (rule length_skip_ws)
    also have "\<dots> \<le> length s1" using length_skip_ws [of s1] by simp
    also have "\<dots> \<le> length s" using scanstring_shorter [OF that(1)] by simp
    finally show ?thesis using length_skip_ws [of s3] by simp
  qed
  then show ?thesis
    by (subst scan_members.simps) (simp add: Let_def split: option.splits)
qed

lemma scan_elements_unguarded:
  "scan_elements s acc =
     (case scan_once s of
        None \<Rightarrow> None
      | Some (v, s1) \<Rightarrow>
          (let s2 = skip_ws s1 in
           if s2 = [] then None
           else if hd s2 = CHR '']'' then Some (acc @ [v], tl s2)
           else if hd s2 = CHR '','' then scan_elements (skip_ws (tl s2)) (acc @ [v])
           else None))"
proof -
  have "length (skip_ws s1) \<le> length s" if "scan_once s = Some (v, s1)" for v s1
    using scan_shorter(1) [OF that] length_skip_ws [of s1] by simp
  then show ?thesis
    by (subst scan_elements.simps) (simp add: Let_def split: option.splits)
qed


lemma skip_ws_Cons_nonws [simp]: "\<not> is_ws c \<Longrightarrow> skip_ws (c # s) = c # s"
  by (simp add: skip_ws_def)

lemma skip_ws_Cons_ws [simp]: "is_ws c \<Longrightarrow> skip_ws (c # s) = skip_ws s"
  by (simp add: skip_ws_def)

lemma skip_ws_newline_indent [simp]: "skip_ws (newline_indent ind level @ s) = skip_ws s"
proof -
  have "dropWhile is_ws (replicate k CHR '' '' @ s) = dropWhile is_ws s" for k
    by (induction k) (simp_all add: is_ws_def)
  then show ?thesis
    by (simp add: skip_ws_def newline_indent_def is_ws_def)
qed































lemma dict_set_distinct: "distinct (map fst d) \<Longrightarrow> distinct (map fst (dict_set d k v))"
proof (induction d)
  case Nil
  then show ?case by simp
next
  case (Cons kv d)
  obtain k' v' where "kv = (k', v')" by (cases kv)
  with Cons show ?case
    using dict_set_keys [of d k v] by (auto simp: rev_image_eqI)
qed

lemma dict_set_list_all: "list_all P d \<Longrightarrow> P (k, v) \<Longrightarrow> list_all P (dict_set d k v)"
  by (induction d) auto

lemma dict_of_row_plain:
  assumes "list_all scalar vals"
  shows "plain_row (dict_of_row names vals)"
proof -
  have "plain_row (foldl (\<lambda>d (c, v). dict_set d (PyStr c) v) d0 zs)"
    if "plain_row d0" and "list_all scalar (map snd zs)" for d0 and zs :: "(string \<times> py_value) list"
    using that
  proof (induction zs arbitrary: d0)
    case Nil
    then show ?case by simp
  next
    case (Cons z zs)
    obtain c v where z: "z = (c, v)" by (cases z)
    have "plain_row (dict_set d0 (PyStr c) v)"
      using Cons.prems z
      by (simp add: plain_row_def dict_set_distinct dict_set_list_all)
    with Cons show ?case by (simp add: z)
  qed
  moreover have "list_all scalar (map snd (zip names vals))"
    using assms by (auto simp: list_all_iff dest: set_zip_rightD)
  ultimately show ?thesis
    by (simp add: dict_of_row_def plain_row_def)
qed

lemma select_rows_plain:
  assumes "select_rows stmt t = Inr fetched" and "scalar_table t"
  shows "list_all plain_row fetched"
proof -
  have cells: "list_all scalar (map (cell t r) names)" if "r \<in> set (rows t)" for r names
  proof -
    have "list_all scalar r" using that assms(2) by (simp add: scalar_table_def list_all_iff)
    then have "scalar (cell t r c)" for c
      by (auto simp: cell_def list_all_iff split: option.splits
          dest!: map_of_SomeD set_zip_rightD)
    then show ?thesis by (simp add: list_all_iff)
  qed
  let ?names = "case sel_columns stmt of None \<Rightarrow> columns t | Some cs \<Rightarrow> cs"
  let ?selected = "map (\<lambda>r. dict_of_row ?names (map (cell t r) ?names)) (rows t)"
  have all: "\<forall>r \<in> set ?selected. plain_row r"
    using cells by (simp add: dict_of_row_plain)
  have "fetched = ?selected \<or> (\<exists>n. fetched = take n ?selected)"
    using assms(1)
    by (auto simp: select_rows_def Let_def split: list.splits option.splits)
  then have "set fetched \<subseteq> set ?selected"
    using set_take_subset [of _ ?selected] by blast
  with all show ?thesis
    unfolding list_all_iff by blast
qed

lemma rows_by_key_plain:
  assumes "rows_by_key key_column fetched acc = Inr d"
    and "list_all plain_row fetched"
    and "distinct (map fst acc)" and "list_all (\<lambda>(k, v). is_plain_row v) acc"
  shows "distinct (map fst d) \<and> list_all (\<lambda>(k, v). is_plain_row v) d"
  using assms
proof (induction fetched arbitrary: acc)
  case Nil
  then show ?case by simp
next
  case (Cons row rest)
  then obtain key where "dict_getitem row key_column = Inr key"
    and rest: "rows_by_key key_column rest (dict_set acc key (PyDict row)) = Inr d"
    by (auto split: sum.splits)
  show ?case
    using Cons.prems(2,3,4)
    by (intro Cons.IH [OF rest]) (simp_all add: dict_set_distinct dict_set_list_all)
qed

lemma chat_messages_plain:
  assumes "list_all plain_row fetched"
  shows "plain_dataset (chat_messages_loop fetched [] 0)"
proof -
  have loop: "chat_messages_loop fetched [] (int 0) = [] @ indexed_from 0 fetched"
    by (rule chat_messages_loop_indexed) simp
  have names: "map (\<lambda>kv. member_name (fst kv)) (indexed_from 0 fetched)
                 = map (\<lambda>i. str_int (int i)) [0..<length fetched]"
    by (simp add: indexed_from_def comp_def member_name_def)
  have "distinct (map (\<lambda>i. str_int (int i)) [0..<length fetched])"
    by (auto simp: distinct_map inj_on_def dest: str_int_nat_inj)
  moreover have "list_all (\<lambda>(k, v). key_ok k \<and> is_plain_row v) (indexed_from 0 fetched)"
    using assms by (auto simp: indexed_from_def list_all_iff key_ok_def)
  ultimately show ?thesis
    using loop by (simp add: plain_dataset_def names)
qed

text \<open>What extraction returns on a table without BLOB values has the shape the theorem
  asks for: under distinct keys, rows of scalar values under column names. For the
  synthetic-index strategy the keys are decimal texts, so nothing else is needed.\<close>

lemma extract_by_key_plain:
  assumes "fst (extract_by_key stmt key_column path w) = Inr d"
    and "databases w path = Inr t" and "scalar_table t"
  shows "distinct (map fst d) \<and> list_all (\<lambda>(k, v). is_plain_row v) d"
proof -
  obtain fetched where fetched: "select_rows stmt t = Inr fetched"
    using assms(1,2)
    by (cases "select_rows stmt t") (simp_all add: extract_by_key_def execute_fetchall_eq)
  then have "rows_by_key key_column fetched [] = Inr d"
    using assms(1,2)
    by (cases "rows_by_key key_column fetched []")
       (simp_all add: extract_by_key_def execute_fetchall_eq)
  from rows_by_key_plain [OF this select_rows_plain [OF fetched assms(3)]]
  show ?thesis by simp
qed

lemma get_chat_messages_plain:
  assumes "fst (get_chat_messages path w) = Inr d"
    and "databases w path = Inr t" and "scalar_table t"
  shows "plain_dataset d"
proof -
  let ?stmt = "\<lparr>sel_columns = Some [''SenderID''], sel_limit = Some 10\<rparr>"
  obtain fetched where fetched: "select_rows ?stmt t = Inr fetched"
    using assms(1,2)
    by (cases "select_rows ?stmt t") (simp_all add: get_chat_messages_def execute_fetchall_eq)
  then have "d = chat_messages_loop fetched [] 0"
    using assms(1,2) by (simp add: get_chat_messages_def execute_fetchall_eq)
  then show ?thesis
    using chat_messages_plain [OF select_rows_plain [OF fetched assms(3)]] by simp
qed



end
